theory Spec2Isabelle
  imports Complex_Main
begin

section \<open>The forecasting endpoint of the UMKM prediction backend\<close>

text \<open>
  The development embeds \<^verbatim>\<open>predict\<close> of \<^verbatim>\<open>src/main.py\<close> (lines 85-125) and the
  \<^verbatim>\<open>Prediction\<close> schema of \<^verbatim>\<open>src/schemas.py\<close> (lines 29-37).

  Numbers: the source computes on Python floats. They are read here as exact reals, so
  rounding, overflow to infinity and NaN are outside the model; Python's unbounded
  integers are \<open>int\<close>. Strings are byte strings, and \<^verbatim>\<open>str.lower\<close> is modelled on the
  ASCII letters.
\<close>

subsection \<open>Exceptions\<close>

datatype py_exception =
    HTTPException nat string
  | ZeroDivisionError
  | IndexError
  | ValidationError
  | StorageError string

subsection \<open>Data model\<close>

text \<open>\<^verbatim>\<open>class PredictRequest(BaseModel)\<close>, main.py lines 79-83.\<close>

record PredictRequest =
  series :: "real option list"
  "method" :: string
  window :: int
  alpha :: "real option"

text \<open>
  \<^verbatim>\<open>class Prediction(BaseModel)\<close>, schemas.py lines 29-37. The fields \<^verbatim>\<open>method\<close> and
  \<^verbatim>\<open>window\<close> carry the prefix \<open>p_\<close> to keep them apart from the request's.
\<close>

record Prediction =
  p_method :: string
  p_window :: int
  input_points :: "real list"
  predicted_value :: real

text \<open>
  The dictionary returned by \<^verbatim>\<open>predict\<close>, main.py lines 120-125, with its keys
  \<^verbatim>\<open>predicted\<close>, \<^verbatim>\<open>method\<close>, \<^verbatim>\<open>window\<close> and \<^verbatim>\<open>saved_id\<close>.
\<close>

record response =
  predicted :: real
  r_method :: string
  r_window :: int
  saved_id :: "string option"

text \<open>
  The persistence collaborator \<^verbatim>\<open>create_document(collection_name, document)\<close> is imported
  from the module \<^verbatim>\<open>database\<close>, which is not embedded here, so it is a parameter of the
  handler: it acts on a store \<open>'db\<close>, and either raises or returns the identifier of the
  inserted document.
\<close>

type_synonym 'db create_document =
  "string \<Rightarrow> Prediction \<Rightarrow> 'db \<Rightarrow> (py_exception + string) \<times> 'db"

subsection \<open>Python primitives\<close>

text \<open>\<^verbatim>\<open>str.lower\<close> on ASCII.\<close>

definition lower_char :: "char \<Rightarrow> char" where
  "lower_char c =
     (if 65 \<le> (of_char c :: nat) \<and> (of_char c :: nat) \<le> 90
      then char_of ((of_char c :: nat) + 32) else c)"

definition lower :: "string \<Rightarrow> string" where
  "lower s = map lower_char s"

text \<open>True division \<^verbatim>\<open>a / b\<close>: raises on a zero divisor.\<close>

definition truediv :: "real \<Rightarrow> real \<Rightarrow> py_exception + real" where
  "truediv a b = (if b = 0 then Inl ZeroDivisionError else Inr (a / b))"

text \<open>
  The slice \<^verbatim>\<open>xs[i:]\<close>: a negative start counts from the end, and the start is clipped
  into \<open>[0, len(xs)]\<close>.
\<close>

definition slice_from :: "'a list \<Rightarrow> int \<Rightarrow> 'a list" where
  "slice_from xs i =
     (let n = int (length xs);
          start = (if i < 0 then max (n + i) 0 else min i n)
      in drop (nat start) xs)"

subsection \<open>Schema validation\<close>

text \<open>
  Constructing a \<^verbatim>\<open>Prediction\<close> validates \<^verbatim>\<open>window\<close> against \<^verbatim>\<open>ge=1, le=90\<close> and
  \<^verbatim>\<open>predicted_value\<close> against \<^verbatim>\<open>ge=0\<close>, and raises a validation error otherwise.
\<close>

definition Prediction_new ::
  "string \<Rightarrow> int \<Rightarrow> real list \<Rightarrow> real \<Rightarrow> py_exception + Prediction" where
  "Prediction_new m w pts v =
     (if 1 \<le> w \<and> w \<le> 90 \<and> 0 \<le> v
      then Inr \<lparr>p_method = m, p_window = w, input_points = pts, predicted_value = v\<rparr>
      else Inl ValidationError)"

subsection \<open>The handler\<close>

text \<open>Line 87: \<^verbatim>\<open>data = [x for x in req.series if x is not None]\<close>.\<close>

definition clean :: "real option list \<Rightarrow> real list" where
  "clean xs = map the (filter (\<lambda>x. x \<noteq> None) xs)"

text \<open>Lines 95-97, the branch \<^verbatim>\<open>method == "sma"\<close>.\<close>

definition sma :: "int \<Rightarrow> real list \<Rightarrow> py_exception + real" where
  "sma win data =
     (let w = max 1 (min win (int (length data)));
          window_vals = slice_from data (- w)
      in truediv (sum_list window_vals) (real (length window_vals)))"

text \<open>Lines 102-103, the loop \<^verbatim>\<open>for v in data[1:]: ema = alpha * v + (1 - alpha) * ema\<close>.\<close>

fun ema_loop :: "real \<Rightarrow> real \<Rightarrow> real list \<Rightarrow> real" where
  "ema_loop a ema [] = ema"
| "ema_loop a ema (v # vs) = ema_loop a (a * v + (1 - a) * ema) vs"

text \<open>Line 100: \<^verbatim>\<open>alpha = req.alpha if req.alpha is not None else 2 / (req.window + 1)\<close>.\<close>

definition resolve_alpha :: "int \<Rightarrow> real option \<Rightarrow> py_exception + real" where
  "resolve_alpha win alph =
     (case alph of
        Some a \<Rightarrow> Inr a
      | None \<Rightarrow> truediv 2 (real_of_int (win + 1)))"

text \<open>Lines 100-104, the branch \<^verbatim>\<open>method == "ema"\<close>.\<close>

definition ema :: "int \<Rightarrow> real option \<Rightarrow> real list \<Rightarrow> py_exception + real" where
  "ema win alph data =
     (case resolve_alpha win alph of
        Inl e \<Rightarrow> Inl e
      | Inr a \<Rightarrow>
          (case data of
             [] \<Rightarrow> Inl IndexError
           | d0 # _ \<Rightarrow> Inr (ema_loop a d0 (slice_from data 1))))"

definition detail_short :: string where
  "detail_short = ''Series minimal 2 angka''"

definition detail_unknown :: string where
  "detail_unknown =
     ''Method tidak dikenal. Pakai '' @ [CHR 0x27] @ ''sma'' @ [CHR 0x27] @
     '' atau '' @ [CHR 0x27] @ ''ema'' @ [CHR 0x27]"

text \<open>Lines 91-106: the method dispatch, giving \<^verbatim>\<open>pred_value\<close> or raising.\<close>

definition pred_value :: "string \<Rightarrow> PredictRequest \<Rightarrow> real list \<Rightarrow> py_exception + real" where
  "pred_value m req data =
     (if m = ''sma'' then sma (window req) data
      else if m = ''ema'' then ema (window req) (alpha req) data
      else Inl (HTTPException 400 detail_unknown))"

text \<open>
  Lines 109-118: the record is built and handed to the collaborator inside
  \<^verbatim>\<open>try ... except Exception: inserted_id = None\<close>.
\<close>

definition save_prediction ::
  "'db create_document \<Rightarrow> string \<Rightarrow> PredictRequest \<Rightarrow> real list \<Rightarrow> real \<Rightarrow> 'db
     \<Rightarrow> string option \<times> 'db" where
  "save_prediction create_document m req data v db =
     (case Prediction_new m (window req) data v of
        Inl e \<Rightarrow> (None, db)
      | Inr pred_doc \<Rightarrow>
          (case create_document ''prediction'' pred_doc db of
             (Inl e, db') \<Rightarrow> (None, db')
           | (Inr inserted_id, db') \<Rightarrow> (Some inserted_id, db')))"

text \<open>Lines 86-125: \<^verbatim>\<open>predict\<close>.\<close>

definition predict ::
  "'db create_document \<Rightarrow> PredictRequest \<Rightarrow> 'db \<Rightarrow> (py_exception + response) \<times> 'db" where
  "predict create_document req db =
     (let data = clean (series req) in
      if length data < 2 then (Inl (HTTPException 400 detail_short), db)
      else
        let m = lower (method req) in
        case pred_value m req data of
          Inl e \<Rightarrow> (Inl e, db)
        | Inr v \<Rightarrow>
            (case save_prediction create_document m req data v db of
               (inserted_id, db') \<Rightarrow>
                 (Inr \<lparr>predicted = v, r_method = m, r_window = window req,
                       saved_id = inserted_id\<rparr>, db')))"

subsection \<open>The specification's vocabulary\<close>

text \<open>
  The definitions of this subsection follow the words of the specification, not the code:
  \<open>clamp(window, lower=1, upper=len(data))\<close>, the trailing \<open>w\<close> elements
  \<open>data[len(data)-w:]\<close>, the arithmetic mean, and the recurrence that starts at
  \<open>data[0]\<close> and folds \<open>estimate = a*v + (1-a)*estimate\<close> over \<open>data[1:]\<close>.
\<close>

definition spec_clamp :: "int \<Rightarrow> int \<Rightarrow> int \<Rightarrow> int" where
  "spec_clamp x lo hi = max lo (min x hi)"

definition spec_trailing :: "nat \<Rightarrow> 'a list \<Rightarrow> 'a list" where
  "spec_trailing w xs = drop (length xs - w) xs"

definition spec_mean :: "real list \<Rightarrow> real" where
  "spec_mean xs = sum_list xs / real (length xs)"

definition spec_ema :: "real \<Rightarrow> real list \<Rightarrow> real" where
  "spec_ema a data = foldl (\<lambda>estimate v. a * v + (1 - a) * estimate) (hd data) (tl data)"

subsection \<open>In-memory collaborators\<close>

text \<open>
  Two stores to run the handler on: one that appends the document and returns an identifier,
  one whose every write raises.
\<close>

definition store_ok :: "(string \<times> Prediction) list create_document" where
  "store_ok c d s = (Inr (''doc-'' @ replicate (length s) CHR ''i''), s @ [(c, d)])"

definition store_down :: "(string \<times> Prediction) list create_document" where
  "store_down c d s = (Inl (StorageError ''unavailable''), s)"

section \<open>Properties\<close>

subsection \<open>The primitives and the two estimators\<close>

lemma clean_filter: "map Some (clean xs) = filter (\<lambda>x. x \<noteq> None) xs"
  by (induction xs) (auto simp: clean_def)

lemma clean_map_Some: "clean (map Some ys) = ys"
  by (induction ys) (auto simp: clean_def)

lemma slice_from_neg: "1 \<le> w \<Longrightarrow> slice_from xs (- w) = drop (length xs - nat w) xs"
  by (auto simp: slice_from_def Let_def max_def nat_diff_distrib')

lemma slice_from_1: "slice_from xs 1 = tl xs"
  by (cases xs) (auto simp: slice_from_def Let_def min_def drop_Suc)

lemma ema_loop_foldl:
  "ema_loop a e vs = foldl (\<lambda>estimate v. a * v + (1 - a) * estimate) e vs"
  by (induction vs arbitrary: e) auto

lemma sma_value:
  assumes "data \<noteq> []"
  shows "sma win data =
    Inr (spec_mean (spec_trailing (nat (spec_clamp win 1 (int (length data)))) data))"
proof -
  define w where "w = max 1 (min win (int (length data)))"
  have n: "1 \<le> int (length data)" using assms by (cases data) auto
  have w: "1 \<le> w" "w \<le> int (length data)" using n by (auto simp: w_def)
  have s: "slice_from data (- w) = drop (length data - nat w) data"
    using w by (simp add: slice_from_neg)
  have l: "length (drop (length data - nat w) data) = nat w" using w by auto
  have "sma win data = truediv (sum_list (drop (length data - nat w) data)) (real (nat w))"
    unfolding sma_def Let_def w_def[symmetric] s l ..
  also have "\<dots> = Inr (sum_list (drop (length data - nat w) data) / real (nat w))"
    using w by (simp add: truediv_def)
  finally have v: "sma win data = Inr (sum_list (drop (length data - nat w) data) / real (nat w))" .
  have m: "spec_mean (spec_trailing (nat w) data) =
      sum_list (drop (length data - nat w) data) / real (nat w)"
    unfolding spec_mean_def spec_trailing_def l ..
  have c: "spec_clamp win 1 (int (length data)) = w"
    by (simp add: spec_clamp_def w_def)
  show ?thesis unfolding c m v ..
qed

lemma ema_value:
  assumes "data \<noteq> []" and "resolve_alpha win alph = Inr a"
  shows "ema win alph data = Inr (spec_ema a data)"
  using assms by (cases data) (auto simp: ema_def spec_ema_def ema_loop_foldl slice_from_1)

lemma predict_success:
  assumes "2 \<le> length (clean (series req))"
    and "pred_value (lower (method req)) req (clean (series req)) = Inr v"
  shows "\<exists>r. fst (predict cd req db) = Inr r \<and> predicted r = v \<and>
    r_method r = lower (method req) \<and> r_window r = window req"
  using assms by (auto simp: predict_def Let_def split: prod.splits)

lemma pred_value_sma:
  assumes "data \<noteq> []"
  shows "pred_value ''sma'' req data =
    Inr (spec_mean (spec_trailing (nat (spec_clamp (window req) 1 (int (length data)))) data))"
  using sma_value[OF assms] by (simp add: pred_value_def)

lemma pred_value_ema:
  assumes "data \<noteq> []" and "resolve_alpha (window req) (alpha req) = Inr a"
  shows "pred_value ''ema'' req data = Inr (spec_ema a data)"
  using ema_value[OF assms] by (simp add: pred_value_def)

lemma spec_trailing_all: "length xs \<le> w \<Longrightarrow> spec_trailing w xs = xs"
  by (simp add: spec_trailing_def)

lemma spec_mean_trailing_1: "xs \<noteq> [] \<Longrightarrow> spec_mean (spec_trailing 1 xs) = last xs"
  by (cases xs rule: rev_cases) (simp_all add: spec_mean_def spec_trailing_def)

subsection \<open>Running the handler\<close>

lemma predict_run:
  assumes "2 \<le> length (clean (series req))"
    and "pred_value (lower (method req)) req (clean (series req)) = Inr v"
  shows "predict cd req db =
    (Inr \<lparr>predicted = v, r_method = lower (method req), r_window = window req,
          saved_id = fst (save_prediction cd (lower (method req)) req (clean (series req)) v db)\<rparr>,
     snd (save_prediction cd (lower (method req)) req (clean (series req)) v db))"
  using assms by (simp add: predict_def Let_def split: prod.splits)

lemma predict_InrD:
  assumes "fst (predict cd req db) = Inr r"
  shows "2 \<le> length (clean (series req))"
    and "pred_value (lower (method req)) req (clean (series req)) = Inr (predicted r)"
    and "r_method r = lower (method req)"
    and "r_window r = window req"
  using assms by (auto simp: predict_def Let_def split: if_splits sum.splits prod.splits)

lemma resolve_alpha_Some: "resolve_alpha win (Some a) = Inr a"
  by (simp add: resolve_alpha_def)

lemma resolve_alpha_None:
  "resolve_alpha win None =
     (if win = - 1 then Inl ZeroDivisionError else Inr (2 / real_of_int (win + 1)))"
proof -
  have "real_of_int (win + 1) = 0 \<longleftrightarrow> win = - 1" by linarith
  then show ?thesis by (simp add: resolve_alpha_def truediv_def)
qed

subsection \<open>Simple moving average\<close>

text \<open>
  Claim C1. For a series with at least two usable points and the method \<open>sma\<close> (after
  lowercasing), the handler succeeds and the predicted value is the arithmetic mean of the
  trailing \<open>w\<close> elements of the cleaned series, \<open>w = max(1, min(window, len(data)))\<close>.
  A window at least as long as the cleaned series gives the mean of the whole cleaned
  series, and a window of zero or less gives its last element.
\<close>

theorem sma_is_trailing_mean:
  assumes "2 \<le> length (clean (series req))" and "lower (method req) = ''sma''"
  shows "\<exists>r. fst (predict cd req db) = Inr r \<and>
    predicted r =
      spec_mean (spec_trailing
        (nat (spec_clamp (window req) 1 (int (length (clean (series req))))))
        (clean (series req))) \<and>
    (int (length (clean (series req))) \<le> window req \<longrightarrow>
       predicted r = spec_mean (clean (series req))) \<and>
    (window req \<le> 0 \<longrightarrow> predicted r = last (clean (series req)))"
proof -
  define data where "data = clean (series req)"
  define w where "w = nat (spec_clamp (window req) 1 (int (length data)))"
  have len: "2 \<le> length data" using assms(1) by (simp add: data_def)
  have ne: "data \<noteq> []" using len by auto
  have pv: "pred_value (lower (method req)) req data = Inr (spec_mean (spec_trailing w data))"
    unfolding assms(2) w_def by (rule pred_value_sma[OF ne])
  have "\<exists>r. fst (predict cd req db) = Inr r \<and> predicted r = spec_mean (spec_trailing w data) \<and>
    r_method r = lower (method req) \<and> r_window r = window req"
    unfolding data_def by (rule predict_success[OF assms(1) pv[unfolded data_def]])
  then obtain r where r: "fst (predict cd req db) = Inr r"
    and p: "predicted r = spec_mean (spec_trailing w data)"
    by (elim exE conjE)
  have full: "predicted r = spec_mean data" if "int (length data) \<le> window req"
  proof -
    have "w = length data" using that len by (simp add: w_def spec_clamp_def)
    then show ?thesis using p by (simp add: spec_trailing_all)
  qed
  have lst: "predicted r = last data" if "window req \<le> 0"
  proof -
    have "w = 1" using that by (simp add: w_def spec_clamp_def)
    then have "predicted r = spec_mean (spec_trailing 1 data)" using p by (simp only:)
    then show ?thesis by (simp only: spec_mean_trailing_1[OF ne])
  qed
  have "fst (predict cd req db) = Inr r \<and>
    predicted r = spec_mean (spec_trailing w data) \<and>
    (int (length data) \<le> window req \<longrightarrow> predicted r = spec_mean data) \<and>
    (window req \<le> 0 \<longrightarrow> predicted r = last data)"
    using r p full lst by blast
  then show ?thesis unfolding w_def data_def by (rule exI)
qed

theorem sma_is_trailing_mean_witness:
  "(2 \<le> length (clean (series \<lparr>series = [Some 10, Some 20, Some 30, Some 40], method = ''SMA'',
        window = 2, alpha = None\<rparr>)) \<and>
    lower (method \<lparr>series = [Some 10, Some 20, Some 30, Some 40], method = ''SMA'',
        window = 2, alpha = None\<rparr>) = ''sma'' \<and>
    (\<exists>r. fst (predict store_ok \<lparr>series = [Some 10, Some 20, Some 30, Some 40], method = ''SMA'',
        window = 2, alpha = None\<rparr> []) = Inr r \<and> predicted r = 35)) \<and>
   (int (length (clean (series \<lparr>series = [Some 10, Some 20, Some 30], method = ''sma'',
        window = 100, alpha = None\<rparr>))) \<le> 100 \<and>
    (\<exists>r. fst (predict store_ok \<lparr>series = [Some 10, Some 20, Some 30], method = ''sma'',
        window = 100, alpha = None\<rparr> []) = Inr r \<and> predicted r = 20)) \<and>
   ((0::int) \<le> 0 \<and>
    (\<exists>r. fst (predict store_ok \<lparr>series = [Some 5, Some 8, Some 13], method = ''sma'',
        window = 0, alpha = None\<rparr> []) = Inr r \<and> predicted r = 13))"
proof -
  let ?R1 = "\<lparr>series = [Some 10, Some 20, Some 30, Some 40], method = ''SMA'',
        window = 2, alpha = None\<rparr>"
  let ?R2 = "\<lparr>series = [Some 10, Some 20, Some 30], method = ''sma'',
        window = 100, alpha = None\<rparr>"
  let ?R3 = "\<lparr>series = [Some 5, Some 8, Some 13], method = ''sma'',
        window = 0, alpha = None\<rparr>"
  have a1: "2 \<le> length (clean (series ?R1))" by (simp add: clean_def)
  have a2: "2 \<le> length (clean (series ?R2))" by (simp add: clean_def)
  have a3: "2 \<le> length (clean (series ?R3))" by (simp add: clean_def)
  have m1: "lower (method ?R1) = ''sma''" by code_simp
  have m2: "lower (method ?R2) = ''sma''" by (simp add: lower_def lower_char_def)
  have m3: "lower (method ?R3) = ''sma''" by (simp add: lower_def lower_char_def)
  have v1: "spec_mean (spec_trailing
        (nat (spec_clamp (window ?R1) 1 (int (length (clean (series ?R1))))))
        (clean (series ?R1))) = 35"
    by (simp add: spec_mean_def spec_trailing_def spec_clamp_def clean_def)
  have v2: "spec_mean (clean (series ?R2)) = 20"
    by (simp add: spec_mean_def clean_def)
  have v3: "last (clean (series ?R3)) = 13"
    by (simp add: clean_def)
  have w2: "int (length (clean (series ?R2))) \<le> window ?R2" by (simp add: clean_def)
  have w3: "window ?R3 \<le> 0" by simp
  have e1: "\<exists>r. fst (predict store_ok ?R1 []) = Inr r \<and> predicted r = 35"
    using sma_is_trailing_mean[OF a1 m1, of store_ok "[]"] unfolding v1 by blast
  have e2: "\<exists>r. fst (predict store_ok ?R2 []) = Inr r \<and> predicted r = 20"
    using sma_is_trailing_mean[OF a2 m2, of store_ok "[]"] w2 unfolding v2 by blast
  have e3: "\<exists>r. fst (predict store_ok ?R3 []) = Inr r \<and> predicted r = 13"
    using sma_is_trailing_mean[OF a3 m3, of store_ok "[]"] w3 unfolding v3 by blast
  show ?thesis using a1 m1 e1 w2 e2 e3 by simp
qed

subsection \<open>Exponential moving average\<close>

text \<open>
  Claim C2. For a series with at least two usable points, the method \<open>ema\<close> and a supplied
  alpha \<open>a\<close>, the handler succeeds and the predicted value is the left-to-right fold over the
  whole cleaned series that starts the estimate at \<open>data[0]\<close> and updates it to
  \<open>a*v + (1-a)*estimate\<close> for every later element \<open>v\<close>; the window plays no part and no
  element is skipped.
\<close>

theorem ema_explicit_alpha_is_fold:
  assumes "2 \<le> length (clean (series req))" and "lower (method req) = ''ema''"
    and "alpha req = Some a"
  shows "\<exists>r. fst (predict cd req db) = Inr r \<and> predicted r = spec_ema a (clean (series req))"
proof -
  have ne: "clean (series req) \<noteq> []" using assms(1) by auto
  have ra: "resolve_alpha (window req) (alpha req) = Inr a"
    unfolding assms(3) by (rule resolve_alpha_Some)
  have pv: "pred_value (lower (method req)) req (clean (series req)) =
      Inr (spec_ema a (clean (series req)))"
    unfolding assms(2) by (rule pred_value_ema[OF ne ra])
  show ?thesis unfolding predict_run[OF assms(1) pv] by simp
qed

theorem ema_explicit_alpha_is_fold_witness:
  "2 \<le> length (clean (series \<lparr>series = [Some 10, Some 20, Some 30], method = ''ema'',
        window = 3, alpha = Some (1 / 2)\<rparr>)) \<and>
   lower (method \<lparr>series = [Some 10, Some 20, Some 30], method = ''ema'',
        window = 3, alpha = Some (1 / 2)\<rparr>) = ''ema'' \<and>
   alpha \<lparr>series = [Some 10, Some 20, Some 30], method = ''ema'',
        window = 3, alpha = Some (1 / 2)\<rparr> = Some (1 / 2) \<and>
   (\<exists>r. fst (predict store_ok \<lparr>series = [Some 10, Some 20, Some 30], method = ''ema'',
        window = 3, alpha = Some (1 / 2)\<rparr> []) = Inr r \<and> predicted r = 45 / 2)"
proof -
  let ?R = "\<lparr>series = [Some 10, Some 20, Some 30], method = ''ema'',
        window = 3, alpha = Some (1 / 2)\<rparr>"
  have a: "2 \<le> length (clean (series ?R))" by (simp add: clean_def)
  have m: "lower (method ?R) = ''ema''" by (simp add: lower_def lower_char_def)
  have al: "alpha ?R = Some (1 / 2)" by simp
  have v: "spec_ema (1 / 2) (clean (series ?R)) = 45 / 2"
    by (simp add: spec_ema_def clean_def)
  have "\<exists>r. fst (predict store_ok ?R []) = Inr r \<and> predicted r = 45 / 2"
    using ema_explicit_alpha_is_fold[OF a m al, of store_ok "[]"] unfolding v .
  then show ?thesis using a m al by simp
qed

text \<open>
  Claim C4. For a series with at least two usable points and the method \<open>ema\<close>: when alpha
  is absent the smoothing factor is \<open>2 / (window + 1)\<close>, and the prediction is the
  recurrence run with that factor (the quotient exists for every window but \<open>-1\<close>, where
  the division raises); when alpha is supplied it is the factor as it stands, whatever its
  value, and the window-derived value is not consulted.
\<close>

theorem ema_smoothing_factor:
  assumes "2 \<le> length (clean (series req))" and "lower (method req) = ''ema''"
  shows "(alpha req = None \<longrightarrow>
      resolve_alpha (window req) (alpha req) =
        (if window req = - 1 then Inl ZeroDivisionError
         else Inr (2 / real_of_int (window req + 1))) \<and>
      map_sum id predicted (fst (predict cd req db)) =
        (if window req = - 1 then Inl ZeroDivisionError
         else Inr (spec_ema (2 / real_of_int (window req + 1)) (clean (series req))))) \<and>
    (\<forall>a. alpha req = Some a \<longrightarrow>
      resolve_alpha (window req) (alpha req) = Inr a \<and>
      map_sum id predicted (fst (predict cd req db)) = Inr (spec_ema a (clean (series req))))"
proof -
  have ne: "clean (series req) \<noteq> []" using assms(1) by auto
  have run: "map_sum id predicted (fst (predict cd req db)) = Inr (spec_ema a (clean (series req)))"
    if "resolve_alpha (window req) (alpha req) = Inr a" for a
  proof -
    have pv: "pred_value (lower (method req)) req (clean (series req)) =
        Inr (spec_ema a (clean (series req)))"
      unfolding assms(2) by (rule pred_value_ema[OF ne that])
    show ?thesis unfolding predict_run[OF assms(1) pv] by simp
  qed
  have fail: "map_sum id predicted (fst (predict cd req db)) = Inl ZeroDivisionError"
    if "resolve_alpha (window req) (alpha req) = Inl ZeroDivisionError"
    using that assms
    by (simp add: predict_def Let_def pred_value_def ema_def)
  have none: "resolve_alpha (window req) (alpha req) =
        (if window req = - 1 then Inl ZeroDivisionError
         else Inr (2 / real_of_int (window req + 1))) \<and>
      map_sum id predicted (fst (predict cd req db)) =
        (if window req = - 1 then Inl ZeroDivisionError
         else Inr (spec_ema (2 / real_of_int (window req + 1)) (clean (series req))))"
    if n: "alpha req = None"
  proof (cases "window req = - 1")
    case True
    have ra: "resolve_alpha (window req) (alpha req) = Inl ZeroDivisionError"
      unfolding n resolve_alpha_None using True by simp
    show ?thesis using ra fail[OF ra] True by simp
  next
    case False
    have ra: "resolve_alpha (window req) (alpha req) = Inr (2 / real_of_int (window req + 1))"
      unfolding n resolve_alpha_None using False by simp
    show ?thesis using ra run[OF ra] False by simp
  qed
  have some: "resolve_alpha (window req) (alpha req) = Inr a \<and>
      map_sum id predicted (fst (predict cd req db)) = Inr (spec_ema a (clean (series req)))"
    if s: "alpha req = Some a" for a
  proof -
    have ra: "resolve_alpha (window req) (alpha req) = Inr a"
      unfolding s by (rule resolve_alpha_Some)
    show ?thesis using ra run[OF ra] by simp
  qed
  show ?thesis using none some by blast
qed

theorem ema_smoothing_factor_witness:
  "(2 \<le> length (clean (series \<lparr>series = [Some 10, Some 20, Some 30], method = ''ema'',
        window = 3, alpha = None\<rparr>)) \<and>
    lower (method \<lparr>series = [Some 10, Some 20, Some 30], method = ''ema'',
        window = 3, alpha = None\<rparr>) = ''ema'' \<and>
    alpha \<lparr>series = [Some 10, Some 20, Some 30], method = ''ema'',
        window = 3, alpha = None\<rparr> = None \<and>
    resolve_alpha 3 None = Inr (1 / 2) \<and>
    map_sum id predicted (fst (predict store_ok \<lparr>series = [Some 10, Some 20, Some 30],
        method = ''ema'', window = 3, alpha = None\<rparr> [])) = Inr (45 / 2)) \<and>
   (2 \<le> length (clean (series \<lparr>series = [Some 10, Some 20], method = ''ema'',
        window = 3, alpha = Some 2\<rparr>)) \<and>
    lower (method \<lparr>series = [Some 10, Some 20], method = ''ema'',
        window = 3, alpha = Some 2\<rparr>) = ''ema'' \<and>
    alpha \<lparr>series = [Some 10, Some 20], method = ''ema'',
        window = 3, alpha = Some 2\<rparr> = Some 2 \<and>
    resolve_alpha 3 (Some 2) = Inr 2 \<and>
    map_sum id predicted (fst (predict store_ok \<lparr>series = [Some 10, Some 20],
        method = ''ema'', window = 3, alpha = Some 2\<rparr> [])) = Inr 30)"
proof -
  let ?R1 = "\<lparr>series = [Some 10, Some 20, Some 30], method = ''ema'',
        window = 3, alpha = None\<rparr>"
  let ?R2 = "\<lparr>series = [Some 10, Some 20], method = ''ema'',
        window = 3, alpha = Some 2\<rparr>"
  have a1: "2 \<le> length (clean (series ?R1))" by (simp add: clean_def)
  have a2: "2 \<le> length (clean (series ?R2))" by (simp add: clean_def)
  have m1: "lower (method ?R1) = ''ema''" by (simp add: lower_def lower_char_def)
  have m2: "lower (method ?R2) = ''ema''" by (simp add: lower_def lower_char_def)
  have v1: "spec_ema (1 / 2) (clean (series ?R1)) = 45 / 2"
    by (simp add: spec_ema_def clean_def)
  have v2: "spec_ema 2 (clean (series ?R2)) = 30"
    by (simp add: spec_ema_def clean_def)
  have e1: "resolve_alpha 3 None = Inr (1 / 2) \<and>
    map_sum id predicted (fst (predict store_ok ?R1 [])) = Inr (45 / 2)"
    using ema_smoothing_factor[OF a1 m1, of store_ok "[]"] v1 by simp
  have e2: "resolve_alpha 3 (Some 2) = Inr 2 \<and>
    map_sum id predicted (fst (predict store_ok ?R2 [])) = Inr 30"
    using ema_smoothing_factor[OF a2 m2, of store_ok "[]"] v2 by simp
  show ?thesis using a1 m1 e1 a2 m2 e2 by simp
qed

text \<open>
  Claim C8. For a series with at least two usable points, the method \<open>ema\<close> and a supplied
  alpha, the predicted value does not depend on the window: any two windows give a
  successful response with the same prediction.
\<close>

theorem ema_window_independent:
  assumes "2 \<le> length (clean (series req))" and "lower (method req) = ''ema''"
    and "alpha req = Some a"
  shows "\<exists>r1 r2. fst (predict cd (req\<lparr>window := w1\<rparr>) db) = Inr r1 \<and>
    fst (predict cd (req\<lparr>window := w2\<rparr>) db) = Inr r2 \<and>
    predicted r1 = predicted r2"
proof -
  have ne: "clean (series req) \<noteq> []" using assms(1) by auto
  have run: "\<exists>r. fst (predict cd (req\<lparr>window := w\<rparr>) db) = Inr r \<and>
      predicted r = spec_ema a (clean (series req))" for w
  proof -
    let ?q = "req\<lparr>window := w\<rparr>"
    have l: "2 \<le> length (clean (series ?q))" using assms(1) by simp
    have n: "clean (series ?q) \<noteq> []" using ne by simp
    have ra: "resolve_alpha (window ?q) (alpha ?q) = Inr a"
      using assms(3) by (simp add: resolve_alpha_Some)
    have pv: "pred_value (lower (method ?q)) ?q (clean (series ?q)) =
        Inr (spec_ema a (clean (series ?q)))"
      using pred_value_ema[OF n ra] assms(2) by simp
    show ?thesis unfolding predict_run[OF l pv] by simp
  qed
  obtain r1 where r1: "fst (predict cd (req\<lparr>window := w1\<rparr>) db) = Inr r1"
    "predicted r1 = spec_ema a (clean (series req))"
    using run[of w1] by (elim exE conjE)
  obtain r2 where r2: "fst (predict cd (req\<lparr>window := w2\<rparr>) db) = Inr r2"
    "predicted r2 = spec_ema a (clean (series req))"
    using run[of w2] by (elim exE conjE)
  have "fst (predict cd (req\<lparr>window := w1\<rparr>) db) = Inr r1 \<and>
    fst (predict cd (req\<lparr>window := w2\<rparr>) db) = Inr r2 \<and> predicted r1 = predicted r2"
    using r1 r2 by simp
  then show ?thesis by (intro exI)
qed

theorem ema_window_independent_witness:
  "2 \<le> length (clean (series \<lparr>series = [Some 10, Some 20, Some 30], method = ''ema'',
        window = 3, alpha = Some (1 / 2)\<rparr>)) \<and>
   lower (method \<lparr>series = [Some 10, Some 20, Some 30], method = ''ema'',
        window = 3, alpha = Some (1 / 2)\<rparr>) = ''ema'' \<and>
   alpha \<lparr>series = [Some 10, Some 20, Some 30], method = ''ema'',
        window = 3, alpha = Some (1 / 2)\<rparr> = Some (1 / 2) \<and>
   (\<exists>r1 r2.
      fst (predict store_ok \<lparr>series = [Some 10, Some 20, Some 30], method = ''ema'',
        window = 90, alpha = Some (1 / 2)\<rparr> []) = Inr r1 \<and>
      fst (predict store_ok \<lparr>series = [Some 10, Some 20, Some 30], method = ''ema'',
        window = - 1, alpha = Some (1 / 2)\<rparr> []) = Inr r2 \<and>
      predicted r1 = predicted r2)"
proof -
  let ?R = "\<lparr>series = [Some 10, Some 20, Some 30], method = ''ema'',
        window = 3, alpha = Some (1 / 2)\<rparr>"
  have a: "2 \<le> length (clean (series ?R))" by (simp add: clean_def)
  have m: "lower (method ?R) = ''ema''" by (simp add: lower_def lower_char_def)
  have al: "alpha ?R = Some (1 / 2)" by simp
  have "\<exists>r1 r2. fst (predict store_ok (?R\<lparr>window := 90\<rparr>) []) = Inr r1 \<and>
      fst (predict store_ok (?R\<lparr>window := - 1\<rparr>) []) = Inr r2 \<and>
      predicted r1 = predicted r2"
    by (rule ema_window_independent[OF a m al])
  then show ?thesis using a m al by simp
qed

text \<open>
  Claim C3. The claim says that the handler either raises one of the two validation errors
  or returns a number, for every window. With the method \<open>ema\<close>, no alpha and the window
  \<open>-1\<close>, the derivation \<open>2 / (window + 1)\<close> divides by zero: the handler raises
  \<^verbatim>\<open>ZeroDivisionError\<close>, which is neither validation error, and writes nothing.
\<close>

theorem predict_ema_zero_division:
  "predict cd \<lparr>series = [Some 10, Some 20], method = ''ema'', window = - 1, alpha = None\<rparr> db
     = (Inl ZeroDivisionError, db)"
  by (simp add: predict_def clean_def lower_def lower_char_def pred_value_def ema_def
      resolve_alpha_def truediv_def)

text \<open>
  Apart from that input class the claim's dichotomy holds in the model: a failure of the
  handler is one of the two validation errors, or the division by zero at window \<open>-1\<close>.
\<close>

lemma predict_failure_modes:
  assumes "fst (predict cd req db) = Inl e"
  shows "e = HTTPException 400 detail_short \<or> e = HTTPException 400 detail_unknown \<or>
    (e = ZeroDivisionError \<and> lower (method req) = ''ema'' \<and> alpha req = None \<and>
     window req = - 1)"
proof (cases "length (clean (series req)) < 2")
  case True
  then show ?thesis using assms by (simp add: predict_def Let_def)
next
  case False
  then have len: "2 \<le> length (clean (series req))" by simp
  then have ne: "clean (series req) \<noteq> []" by auto
  have pv: "pred_value (lower (method req)) req (clean (series req)) = Inl e"
    using assms False
    by (auto simp: predict_def Let_def split: sum.splits prod.splits)
  consider (s) "lower (method req) = ''sma''" | (e) "lower (method req) = ''ema''"
    | (u) "lower (method req) \<noteq> ''sma''" "lower (method req) \<noteq> ''ema''" by blast
  then show ?thesis
  proof cases
    case s
    then show ?thesis using pv pred_value_sma[OF ne, of req] by simp
  next
    case e
    show ?thesis
    proof (cases "alpha req")
      case None
      show ?thesis
      proof (cases "window req = - 1")
        case True
        have "resolve_alpha (window req) (alpha req) = Inl ZeroDivisionError"
          unfolding None resolve_alpha_None using True by simp
        then have "pred_value (lower (method req)) req (clean (series req)) =
            Inl ZeroDivisionError"
          using e by (simp add: pred_value_def ema_def)
        then show ?thesis using pv e None True by simp
      next
        case False
        have "resolve_alpha (window req) (alpha req) = Inr (2 / real_of_int (window req + 1))"
          unfolding None resolve_alpha_None using False by simp
        from pred_value_ema[OF ne this] show ?thesis using pv e by simp
      qed
    next
      case (Some a)
      have "resolve_alpha (window req) (alpha req) = Inr a"
        unfolding Some by (rule resolve_alpha_Some)
      from pred_value_ema[OF ne this] show ?thesis using pv e by simp
    qed
  next
    case u
    then show ?thesis using pv by (simp add: pred_value_def)
  qed
qed

subsection \<open>Validation errors\<close>

text \<open>
  Claim C5. Null entries are removed from the series, keeping the order of the others,
  before the length is checked and before anything is computed: the handler's outcome is
  the same on the series with its nulls already removed. When fewer than two usable points
  remain the handler raises the error for a too short series (HTTP 400), whatever the
  method, window and alpha, and returns no result.
\<close>

theorem short_series_rejected:
  "map Some (clean (series req)) = filter (\<lambda>x. x \<noteq> None) (series req) \<and>
   (length (clean (series req)) < 2 \<longrightarrow>
      predict cd req db = (Inl (HTTPException 400 detail_short), db)) \<and>
   predict cd (req\<lparr>series := map Some (clean (series req))\<rparr>) db = predict cd req db"
proof -
  have pv: "pred_value m (req\<lparr>series := xs\<rparr>) data = pred_value m req data" for m xs data
    by (simp add: pred_value_def)
  have sv: "save_prediction cd m (req\<lparr>series := xs\<rparr>) data v db =
      save_prediction cd m req data v db" for m xs data v
    by (simp add: save_prediction_def)
  have same: "predict cd (req\<lparr>series := map Some (clean (series req))\<rparr>) db = predict cd req db"
    unfolding predict_def Let_def
    by (simp add: clean_map_Some pv sv split: sum.split prod.split)
  have short: "predict cd req db = (Inl (HTTPException 400 detail_short), db)"
    if "length (clean (series req)) < 2"
    using that by (simp add: predict_def)
  show ?thesis using clean_filter[of "series req"] same short by simp
qed

theorem short_series_rejected_witness:
  "length (clean (series \<lparr>series = [None, Some 5], method = ''ema'', window = 3,
      alpha = None\<rparr>)) < 2 \<and>
   map Some (clean [None, Some 5]) = [Some 5] \<and>
   predict store_ok \<lparr>series = [None, Some 5], method = ''ema'', window = 3, alpha = None\<rparr> []
     = (Inl (HTTPException 400 detail_short), [])"
proof -
  let ?R = "\<lparr>series = [None, Some 5], method = ''ema'', window = 3, alpha = None\<rparr>"
  have l: "length (clean (series ?R)) < 2" by (simp add: clean_def)
  have c: "map Some (clean [None, Some 5]) = [Some 5]" by (simp add: clean_def)
  show ?thesis using short_series_rejected[of ?R store_ok "[]"] l c by simp
qed

text \<open>
  Claim C6. For a series with at least two usable points and a method whose lowercase form
  is neither \<open>sma\<close> nor \<open>ema\<close>, the handler raises the error for an unknown method (HTTP
  400) whatever the window and alpha; nothing is computed and the store is left as it was.
\<close>

theorem unknown_method_rejected:
  assumes "2 \<le> length (clean (series req))"
    and "lower (method req) \<noteq> ''sma''" and "lower (method req) \<noteq> ''ema''"
  shows "predict cd req db = (Inl (HTTPException 400 detail_unknown), db)"
  using assms by (simp add: predict_def pred_value_def)

theorem unknown_method_rejected_witness:
  "2 \<le> length (clean (series \<lparr>series = [Some 10, Some 20, Some 30], method = ''arima'',
      window = 3, alpha = None\<rparr>)) \<and>
   lower (method \<lparr>series = [Some 10, Some 20, Some 30], method = ''arima'',
      window = 3, alpha = None\<rparr>) \<noteq> ''sma'' \<and>
   lower (method \<lparr>series = [Some 10, Some 20, Some 30], method = ''arima'',
      window = 3, alpha = None\<rparr>) \<noteq> ''ema'' \<and>
   predict store_ok \<lparr>series = [Some 10, Some 20, Some 30], method = ''arima'',
      window = 3, alpha = None\<rparr> [] = (Inl (HTTPException 400 detail_unknown), [])"
proof -
  let ?R = "\<lparr>series = [Some 10, Some 20, Some 30], method = ''arima'',
      window = 3, alpha = None\<rparr>"
  have a: "2 \<le> length (clean (series ?R))" by (simp add: clean_def)
  have s: "lower (method ?R) \<noteq> ''sma''" by (simp add: lower_def lower_char_def)
  have e: "lower (method ?R) \<noteq> ''ema''" by (simp add: lower_def lower_char_def)
  show ?thesis using unknown_method_rejected[OF a s e, of store_ok "[]"] a s e by simp
qed

subsection \<open>Persistence\<close>

lemma save_prediction_invalid:
  assumes "\<not> (1 \<le> window req \<and> window req \<le> 90 \<and> 0 \<le> v)"
  shows "save_prediction cd m req data v db = (None, db)"
proof -
  have "Prediction_new m (window req) data v = Inl ValidationError"
    using assms unfolding Prediction_new_def by (rule if_not_P)
  then show ?thesis by (simp add: save_prediction_def)
qed

lemma save_prediction_valid:
  assumes "1 \<le> window req" and "window req \<le> 90" and "0 \<le> v"
  shows "snd (save_prediction cd m req data v db) =
    snd (cd ''prediction''
      \<lparr>p_method = m, p_window = window req, input_points = data, predicted_value = v\<rparr> db)"
  using assms
  by (simp add: save_prediction_def Prediction_new_def split: prod.split sum.split)

lemma save_prediction_fails:
  assumes "\<And>c d s. isl (fst (cd c d s))"
  shows "fst (save_prediction cd m req data v db) = None"
proof (cases "Prediction_new m (window req) data v")
  case (Inl e)
  then show ?thesis by (simp add: save_prediction_def)
next
  case (Inr doc)
  obtain res db' where c: "cd ''prediction'' doc db = (res, db')"
    by (cases "cd ''prediction'' doc db")
  have "isl res" using assms[of "''prediction''" doc db] c by simp
  then obtain e where "res = Inl e" by (cases res) auto
  then show ?thesis using Inr c by (simp add: save_prediction_def)
qed

text \<open>
  Claim C7. Whenever the handler returns a response, running it with a collaborator whose
  every write raises also returns a response, and that response has the same predicted
  value, method and window, with the saved identifier null: the storage error does not
  reach the caller.
\<close>

theorem persistence_failure_swallowed:
  assumes "fst (predict cd req db) = Inr r"
    and "\<And>c d s. isl (fst (cd_fail c d s))"
  shows "fst (predict cd_fail req db') = Inr (r\<lparr>saved_id := None\<rparr>)"
proof -
  note d = predict_InrD[OF assms(1)]
  have "fst (predict cd_fail req db') =
    Inr \<lparr>predicted = predicted r, r_method = lower (method req), r_window = window req,
         saved_id = None\<rparr>"
    unfolding predict_run[OF d(1) d(2)]
    by (simp add: save_prediction_fails[of cd_fail, OF assms(2)])
  also have "\<lparr>predicted = predicted r, r_method = lower (method req), r_window = window req,
         saved_id = None\<rparr> = r\<lparr>saved_id := None\<rparr>"
    using d(3) d(4) by (cases r) simp
  finally show ?thesis .
qed

theorem persistence_failure_swallowed_witness:
  "fst (predict store_ok \<lparr>series = [Some 10, Some 20, Some 30, Some 40], method = ''sma'',
        window = 2, alpha = None\<rparr> []) =
     Inr \<lparr>predicted = 35, r_method = ''sma'', r_window = 2, saved_id = Some ''doc-''\<rparr> \<and>
   (\<forall>c d s. isl (fst (store_down c d s))) \<and>
   fst (predict store_down \<lparr>series = [Some 10, Some 20, Some 30, Some 40], method = ''sma'',
        window = 2, alpha = None\<rparr> []) =
     Inr \<lparr>predicted = 35, r_method = ''sma'', r_window = 2, saved_id = None\<rparr>"
proof -
  let ?R = "\<lparr>series = [Some 10, Some 20, Some 30, Some 40], method = ''sma'',
        window = 2, alpha = None\<rparr>"
  have ok: "fst (predict store_ok ?R []) =
     Inr \<lparr>predicted = 35, r_method = ''sma'', r_window = 2, saved_id = Some ''doc-''\<rparr>"
    by code_simp
  have down: "isl (fst (store_down c d s))" for c d s
    by (simp add: store_down_def)
  show ?thesis
    using persistence_failure_swallowed[of store_ok ?R "[]" _ store_down "[]", OF ok down]
      ok down by simp
qed

text \<open>
  Claim C9. For a series with at least two usable points and the method \<open>sma\<close>, the handler
  succeeds, the prediction is the mean of the trailing clamped-window elements, and the
  window of the response is the window of the request as supplied, not the clamped one.
  The record handed to the store, which exists exactly when the supplied window lies in
  \<open>[1, 90]\<close> and the prediction is not negative, carries the supplied window as well;
  otherwise the store is left as it was.
\<close>

theorem response_window_is_supplied:
  assumes "2 \<le> length (clean (series req))" and "lower (method req) = ''sma''"
  shows "\<exists>r. fst (predict cd req db) = Inr r \<and> r_window r = window req \<and>
    predicted r =
      spec_mean (spec_trailing
        (nat (spec_clamp (window req) 1 (int (length (clean (series req))))))
        (clean (series req))) \<and>
    snd (predict cd req db) =
      (if 1 \<le> window req \<and> window req \<le> 90 \<and> 0 \<le> predicted r
       then snd (cd ''prediction''
         \<lparr>p_method = ''sma'', p_window = window req, input_points = clean (series req),
          predicted_value = predicted r\<rparr> db)
       else db)"
proof -
  define v where "v = spec_mean (spec_trailing
        (nat (spec_clamp (window req) 1 (int (length (clean (series req))))))
        (clean (series req)))"
  define r where "r = \<lparr>predicted = v, r_method = lower (method req), r_window = window req,
    saved_id = fst (save_prediction cd (lower (method req)) req (clean (series req)) v db)\<rparr>"
  have ne: "clean (series req) \<noteq> []" using assms(1) by auto
  have pv: "pred_value (lower (method req)) req (clean (series req)) = Inr v"
    unfolding assms(2) v_def by (rule pred_value_sma[OF ne])
  have run: "predict cd req db =
      (Inr r, snd (save_prediction cd (lower (method req)) req (clean (series req)) v db))"
    unfolding r_def by (rule predict_run[OF assms(1) pv])
  have p: "predicted r = v" and w: "r_window r = window req" by (simp_all add: r_def)
  have st: "snd (save_prediction cd (lower (method req)) req (clean (series req)) v db) =
      (if 1 \<le> window req \<and> window req \<le> 90 \<and> 0 \<le> v
       then snd (cd ''prediction''
         \<lparr>p_method = ''sma'', p_window = window req, input_points = clean (series req),
          predicted_value = v\<rparr> db)
       else db)"
  proof (cases "1 \<le> window req \<and> window req \<le> 90 \<and> 0 \<le> v")
    case True
    then have t: "1 \<le> window req" "window req \<le> 90" "0 \<le> v" by simp_all
    show ?thesis unfolding if_P[OF True] assms(2) by (rule save_prediction_valid[OF t])
  next
    case False
    have "save_prediction cd (lower (method req)) req (clean (series req)) v db = (None, db)"
      by (rule save_prediction_invalid[OF False])
    then show ?thesis unfolding if_not_P[OF False] by simp
  qed
  have "fst (predict cd req db) = Inr r \<and> r_window r = window req \<and> predicted r = v \<and>
    snd (predict cd req db) =
      (if 1 \<le> window req \<and> window req \<le> 90 \<and> 0 \<le> predicted r
       then snd (cd ''prediction''
         \<lparr>p_method = ''sma'', p_window = window req, input_points = clean (series req),
          predicted_value = predicted r\<rparr> db)
       else db)"
    unfolding run p using w st by simp
  then show ?thesis unfolding v_def by (rule exI)
qed

theorem response_window_is_supplied_witness:
  "(2 \<le> length (clean (series \<lparr>series = [Some 10, Some 20, Some 30], method = ''sma'',
        window = 50, alpha = None\<rparr>)) \<and>
    lower (method \<lparr>series = [Some 10, Some 20, Some 30], method = ''sma'',
        window = 50, alpha = None\<rparr>) = ''sma'' \<and>
    spec_clamp 50 1 (int (length (clean [Some 10, Some 20, Some 30]))) = 3 \<and>
    (\<exists>r. fst (predict store_ok \<lparr>series = [Some 10, Some 20, Some 30], method = ''sma'',
        window = 50, alpha = None\<rparr> []) = Inr r \<and> r_window r = 50 \<and> predicted r = 20 \<and>
      snd (predict store_ok \<lparr>series = [Some 10, Some 20, Some 30], method = ''sma'',
        window = 50, alpha = None\<rparr> []) =
        [(''prediction'', \<lparr>p_method = ''sma'', p_window = 50, input_points = [10, 20, 30],
           predicted_value = 20\<rparr>)])) \<and>
   (spec_clamp 0 1 (int (length (clean [Some 5, Some 8, Some 13]))) = 1 \<and>
    (\<exists>r. fst (predict store_ok \<lparr>series = [Some 5, Some 8, Some 13], method = ''sma'',
        window = 0, alpha = None\<rparr> []) = Inr r \<and> r_window r = 0 \<and> predicted r = 13 \<and>
      snd (predict store_ok \<lparr>series = [Some 5, Some 8, Some 13], method = ''sma'',
        window = 0, alpha = None\<rparr> []) = []))"
proof -
  let ?R1 = "\<lparr>series = [Some 10, Some 20, Some 30], method = ''sma'',
        window = 50, alpha = None\<rparr>"
  let ?R2 = "\<lparr>series = [Some 5, Some 8, Some 13], method = ''sma'',
        window = 0, alpha = None\<rparr>"
  have a1: "2 \<le> length (clean (series ?R1))" by (simp add: clean_def)
  have a2: "2 \<le> length (clean (series ?R2))" by (simp add: clean_def)
  have m1: "lower (method ?R1) = ''sma''" by (simp add: lower_def lower_char_def)
  have m2: "lower (method ?R2) = ''sma''" by (simp add: lower_def lower_char_def)
  have c1: "spec_clamp 50 1 (int (length (clean [Some 10, Some 20, Some 30]))) = 3"
    by (simp add: spec_clamp_def clean_def)
  have c2: "spec_clamp 0 1 (int (length (clean [Some 5, Some 8, Some 13]))) = 1"
    by (simp add: spec_clamp_def clean_def)
  have v1: "spec_mean (spec_trailing
        (nat (spec_clamp (window ?R1) 1 (int (length (clean (series ?R1))))))
        (clean (series ?R1))) = 20"
    by (simp add: spec_mean_def spec_trailing_def spec_clamp_def clean_def)
  have v2: "spec_mean (spec_trailing
        (nat (spec_clamp (window ?R2) 1 (int (length (clean (series ?R2))))))
        (clean (series ?R2))) = 13"
    by (simp add: spec_mean_def spec_trailing_def spec_clamp_def clean_def)
  have k1: "clean (series ?R1) = [10, 20, 30]" by (simp add: clean_def)
  have e1: "\<exists>r. fst (predict store_ok ?R1 []) = Inr r \<and> r_window r = 50 \<and> predicted r = 20 \<and>
      snd (predict store_ok ?R1 []) =
        [(''prediction'', \<lparr>p_method = ''sma'', p_window = 50, input_points = [10, 20, 30],
           predicted_value = 20\<rparr>)]"
  proof -
    from response_window_is_supplied[OF a1 m1, of store_ok "[]"]
    obtain r where r: "fst (predict store_ok ?R1 []) = Inr r" "r_window r = window ?R1"
      and p: "predicted r = spec_mean (spec_trailing
        (nat (spec_clamp (window ?R1) 1 (int (length (clean (series ?R1))))))
        (clean (series ?R1)))"
      and s: "snd (predict store_ok ?R1 []) =
        (if 1 \<le> window ?R1 \<and> window ?R1 \<le> 90 \<and> 0 \<le> predicted r
         then snd (store_ok ''prediction''
           \<lparr>p_method = ''sma'', p_window = window ?R1, input_points = clean (series ?R1),
            predicted_value = predicted r\<rparr> [])
         else [])"
      by (elim exE conjE)
    have p': "predicted r = 20" using p unfolding v1 .
    have "snd (predict store_ok ?R1 []) =
        [(''prediction'', \<lparr>p_method = ''sma'', p_window = 50, input_points = [10, 20, 30],
           predicted_value = 20\<rparr>)]"
      unfolding s p' k1 by (simp add: store_ok_def)
    then show ?thesis using r p' by simp
  qed
  have e2: "\<exists>r. fst (predict store_ok ?R2 []) = Inr r \<and> r_window r = 0 \<and> predicted r = 13 \<and>
      snd (predict store_ok ?R2 []) = []"
  proof -
    from response_window_is_supplied[OF a2 m2, of store_ok "[]"]
    obtain r where r: "fst (predict store_ok ?R2 []) = Inr r" "r_window r = window ?R2"
      and p: "predicted r = spec_mean (spec_trailing
        (nat (spec_clamp (window ?R2) 1 (int (length (clean (series ?R2))))))
        (clean (series ?R2)))"
      and s: "snd (predict store_ok ?R2 []) =
        (if 1 \<le> window ?R2 \<and> window ?R2 \<le> 90 \<and> 0 \<le> predicted r
         then snd (store_ok ''prediction''
           \<lparr>p_method = ''sma'', p_window = window ?R2, input_points = clean (series ?R2),
            predicted_value = predicted r\<rparr> [])
         else [])"
      by (elim exE conjE)
    have p': "predicted r = 13" using p unfolding v2 .
    have "snd (predict store_ok ?R2 []) = []"
      unfolding s by simp
    then show ?thesis using r p' by simp
  qed
  show ?thesis using a1 m1 c1 e1 c2 e2 by simp
qed

text \<open>
  Claim C10. The record to persist is built under the schema's constraints
  \<open>1 \<le> window \<le> 90\<close> and \<open>predicted_value \<ge> 0\<close>. Whenever the handler returns a response
  whose window or predicted value breaks them, building the record raises the validation
  error, the collaborator is not called, so the store is left as it was, and the response
  carries a null saved identifier.
\<close>

theorem invalid_record_not_persisted:
  assumes "fst (predict cd req db) = Inr r"
    and "\<not> (1 \<le> window req \<and> window req \<le> 90 \<and> 0 \<le> predicted r)"
  shows "Prediction_new (r_method r) (window req) (clean (series req)) (predicted r) =
      Inl ValidationError \<and>
    saved_id r = None \<and> snd (predict cd req db) = db"
proof -
  note d = predict_InrD[OF assms(1)]
  have new: "Prediction_new (r_method r) (window req) (clean (series req)) (predicted r) =
      Inl ValidationError"
    using assms(2) unfolding Prediction_new_def by (rule if_not_P)
  have sv: "save_prediction cd (lower (method req)) req (clean (series req)) (predicted r) db =
      (None, db)"
    by (rule save_prediction_invalid[OF assms(2)])
  have run: "predict cd req db =
      (Inr \<lparr>predicted = predicted r, r_method = lower (method req), r_window = window req,
            saved_id = None\<rparr>, db)"
    unfolding predict_run[OF d(1) d(2)] sv by simp
  have "r = \<lparr>predicted = predicted r, r_method = lower (method req), r_window = window req,
            saved_id = None\<rparr>"
    using assms(1) unfolding run by simp
  then have "saved_id r = None" by (cases r) simp
  then show ?thesis using new run by simp
qed

theorem invalid_record_not_persisted_witness:
  "(fst (predict store_ok \<lparr>series = [Some 5, Some 8, Some 13], method = ''sma'',
        window = 0, alpha = None\<rparr> []) =
      Inr \<lparr>predicted = 13, r_method = ''sma'', r_window = 0, saved_id = None\<rparr> \<and>
    snd (predict store_ok \<lparr>series = [Some 5, Some 8, Some 13], method = ''sma'',
        window = 0, alpha = None\<rparr> []) = []) \<and>
   (fst (predict store_ok \<lparr>series = [Some 10, Some 20, Some 30], method = ''sma'',
        window = 100, alpha = None\<rparr> []) =
      Inr \<lparr>predicted = 20, r_method = ''sma'', r_window = 100, saved_id = None\<rparr> \<and>
    snd (predict store_ok \<lparr>series = [Some 10, Some 20, Some 30], method = ''sma'',
        window = 100, alpha = None\<rparr> []) = []) \<and>
   (fst (predict store_ok \<lparr>series = [Some (- 10), Some (- 20)], method = ''sma'',
        window = 2, alpha = None\<rparr> []) =
      Inr \<lparr>predicted = - 15, r_method = ''sma'', r_window = 2, saved_id = None\<rparr> \<and>
    snd (predict store_ok \<lparr>series = [Some (- 10), Some (- 20)], method = ''sma'',
        window = 2, alpha = None\<rparr> []) = [])"
proof -
  let ?R1 = "\<lparr>series = [Some 5, Some 8, Some 13], method = ''sma'',
        window = 0, alpha = None\<rparr>"
  let ?R2 = "\<lparr>series = [Some 10, Some 20, Some 30], method = ''sma'',
        window = 100, alpha = None\<rparr>"
  let ?R3 = "\<lparr>series = [Some (- 10), Some (- 20)], method = ''sma'',
        window = 2, alpha = None\<rparr>"
  let ?r1 = "\<lparr>predicted = 13, r_method = ''sma'', r_window = 0, saved_id = None\<rparr>"
  let ?r2 = "\<lparr>predicted = 20, r_method = ''sma'', r_window = 100, saved_id = None\<rparr>"
  let ?r3 = "\<lparr>predicted = - 15, r_method = ''sma'', r_window = 2, saved_id = None\<rparr>"
  have f1: "fst (predict store_ok ?R1 []) = Inr ?r1" by code_simp
  have f2: "fst (predict store_ok ?R2 []) = Inr ?r2" by code_simp
  have f3: "fst (predict store_ok ?R3 []) = Inr ?r3" by code_simp
  have b1: "\<not> (1 \<le> window ?R1 \<and> window ?R1 \<le> 90 \<and> 0 \<le> predicted ?r1)" by simp
  have b2: "\<not> (1 \<le> window ?R2 \<and> window ?R2 \<le> 90 \<and> 0 \<le> predicted ?r2)" by simp
  have b3: "\<not> (1 \<le> window ?R3 \<and> window ?R3 \<le> 90 \<and> 0 \<le> predicted ?r3)" by simp
  show ?thesis
    using invalid_record_not_persisted[OF f1 b1] invalid_record_not_persisted[OF f2 b2]
      invalid_record_not_persisted[OF f3 b3] f1 f2 f3
    by simp
qed

end
